theory Spec2Isabelle
  imports Main
begin

section \<open>Characters, C strings and undefined behaviour\<close>

text \<open>
  The library \<^verbatim>\<open>hirzel/file.h\<close> works on C strings and on \<^verbatim>\<open>FILE\<close> streams. A byte is a
  \<^typ>\<open>char\<close>; a memory object holding characters is a \<^typ>\<open>string\<close> that lists all of its
  bytes, terminator included. A pointer argument or result is an \<open>option\<close>: \<open>None\<close> is
  \<^verbatim>\<open>NULL\<close>. Behaviour that C leaves undefined is a value of type \<open>fault\<close>: every function
  that can reach it returns \<open>fault + 'a\<close>.
\<close>

abbreviation NUL :: char where
  "NUL \<equiv> CHR 0x00"

abbreviation NL :: char where
  "NL \<equiv> CHR 0x0A"

abbreviation EOF :: int where
  "EOF \<equiv> - 1"

datatype fault = NullDeref | OutOfBounds

text \<open>
  What the C standard leaves to the implementation: whether plain \<^verbatim>\<open>char\<close> is signed,
  whether an allocation of a given size succeeds, what uninitialised heap and stack
  memory hold, the size of a pointer and the width of \<^verbatim>\<open>size_t\<close>.
\<close>

record platform =
  char_signed :: bool
  malloc_ok :: "nat \<Rightarrow> bool"
  heap_junk :: "nat \<Rightarrow> char"
  stack_junk :: "nat \<Rightarrow> char"
  sizeof_ptr :: nat
  size_bits :: nat

text \<open>\<^verbatim>\<open>strlen\<close> scans to the first zero byte; without one it leaves the object.\<close>

definition cstr :: "string \<Rightarrow> string" where
  "cstr m = takeWhile (\<lambda>c. c \<noteq> NUL) m"

definition strlen :: "string \<Rightarrow> nat option" where
  "strlen m = (if NUL \<in> set m then Some (length (cstr m)) else None)"

section \<open>Streams\<close>

text \<open>
  An open stream that is read sequentially is the list of bytes that it will still
  deliver (a pushed-back byte is at its front); a read error ends it as the end of the
  file does, since \<^verbatim>\<open>getc\<close> and \<^verbatim>\<open>fgets\<close> report both in the same way. \<^verbatim>\<open>getc\<close> returns an
  \<^verbatim>\<open>int\<close>: the byte as an \<^verbatim>\<open>unsigned char\<close>, or \<^verbatim>\<open>EOF\<close>.
\<close>

definition getc :: "string \<Rightarrow> int \<times> string" where
  "getc s = (case s of [] \<Rightarrow> (EOF, []) | c # r \<Rightarrow> (of_char c, r))"

text \<open>The value of an \<^verbatim>\<open>int\<close> after it was stored in a plain \<^verbatim>\<open>char\<close> and promoted again.\<close>

definition to_char :: "platform \<Rightarrow> int \<Rightarrow> int" where
  "to_char pf v =
     (let u = v mod 256 in if char_signed pf \<and> 128 \<le> u then u - 256 else u)"

text \<open>\<^verbatim>\<open>ungetc\<close> pushes the value back as an \<^verbatim>\<open>unsigned char\<close>; pushing \<^verbatim>\<open>EOF\<close> does nothing.\<close>

definition ungetc :: "int \<Rightarrow> string \<Rightarrow> string" where
  "ungetc c s = (if c = EOF then s else char_of c # s)"

text \<open>
  The characters \<^verbatim>\<open>fgets\<close> takes from the stream: at most \<open>k\<close>, stopping after a
  newline or at the end of the stream.
\<close>

fun read_chars :: "nat \<Rightarrow> string \<Rightarrow> string" where
  "read_chars 0 s = []"
| "read_chars (Suc k) [] = []"
| "read_chars (Suc k) (c # s) = (if c = NL then [c] else c # read_chars k s)"

text \<open>
  \<^verbatim>\<open>fgets(buf, n, stream)\<close>: the characters read and a terminator overwrite the front of
  \<open>buf\<close>. When the stream is at its end and nothing was read, \<open>buf\<close> is left as it was
  and the call returns \<^verbatim>\<open>NULL\<close> (the first component is \<open>False\<close>).
\<close>

definition fgets :: "string \<Rightarrow> nat \<Rightarrow> string \<Rightarrow> bool \<times> string \<times> string" where
  "fgets buf n s =
     (let chunk = read_chars (n - 1) s in
      if chunk = [] then (False, buf, s)
      else (True, chunk @ NUL # drop (Suc (length chunk)) buf, drop (length chunk) s))"

section \<open>\<^verbatim>\<open>hxfile_read_line\<close>\<close>

text \<open>
  The \<^verbatim>\<open>do ... while\<close> loop of \<^verbatim>\<open>hxfile_read_line\<close> (lines 183 to 213). The state is the
  array \<^verbatim>\<open>char buf[128]\<close>, the output buffer \<^verbatim>\<open>line\<close> (its string value, \<open>None\<close> while it
  is \<^verbatim>\<open>NULL\<close>), \<^verbatim>\<open>osize\<close> and the stream. The return value of \<^verbatim>\<open>fgets\<close> is ignored, as in
  the source. \<^verbatim>\<open>malloc\<close> is not checked: when it fails, \<^verbatim>\<open>strcpy\<close> or \<^verbatim>\<open>tmp[0] = 0\<close> writes
  through a null pointer. \<^verbatim>\<open>size_t\<close> arithmetic is on \<open>nat\<close>: \<^verbatim>\<open>osize\<close> is bounded by the
  number of bytes read plus the number of chunks. \<^verbatim>\<open>fgets\<close> may write 128 bytes and the
  loop reads \<^verbatim>\<open>buf[126]\<close>: on an array of fewer than 128 bytes that is a fault.
\<close>

function read_line_loop ::
  "platform \<Rightarrow> string \<Rightarrow> string option \<Rightarrow> nat \<Rightarrow> string \<Rightarrow> fault + (string \<times> string)" where
  "read_line_loop pf buf line osize s =
     (if length buf < 128 then Inl OutOfBounds
      else
        let buf1 = buf[126 := NUL];
            (ok, buf2, s') = fgets buf1 128 s
        in case strlen buf2 of
             None \<Rightarrow> Inl OutOfBounds
           | Some len \<Rightarrow>
               let osize' = osize + (len + 1) * 1 in
               if \<not> malloc_ok pf osize' then Inl NullDeref
               else
                 let tmp = (case line of Some l \<Rightarrow> l | None \<Rightarrow> []);
                     line' = tmp @ cstr buf2
                 in if buf2 ! 126 \<noteq> NUL \<and> buf2 ! 126 \<noteq> NL
                    then read_line_loop pf buf2 (Some line') osize' s'
                    else Inr (line', s'))"
  by pat_completeness auto

termination read_line_loop
proof (relation "measure (\<lambda>(pf, buf, line, osize, s). length s)", goal_cases)
  case 1
  show ?case by simp
next
  case (2 pf buf line osize s buf1 x ok y buf2 s' len osize' tmp line')
  have le: "length (read_chars k t) \<le> length t" for k t
    by (induction k t rule: read_chars.induct) auto
  from 2 have fg: "fgets (buf[126 := NUL]) 128 s = (ok, buf2, s')"
    by simp
  from 2 have lb: "128 \<le> length buf" and cont: "buf2 ! 126 \<noteq> NUL"
    by simp_all
  have "length s' < length s"
  proof (cases "read_chars 127 s = []")
    case True
    with fg have "buf2 = buf[126 := NUL]"
      by (simp add: fgets_def)
    with lb cont show ?thesis by simp
  next
    case False
    with fg have s': "s' = drop (length (read_chars 127 s)) s"
      by (simp add: fgets_def Let_def)
    from False have "0 < length (read_chars 127 s)"
      by (simp only: length_greater_0_conv not_False_eq_True)
    with le [of 127 s]
    have "length s - length (read_chars 127 s) < length s"
      by arith
    with s' show ?thesis by simp
  qed
  then show ?case by simp
qed

text \<open>The array \<^verbatim>\<open>char buf[128]\<close> as it is declared on line 177: 128 bytes, not initialised.\<close>

definition stack_buf :: "platform \<Rightarrow> string" where
  "stack_buf pf = map (stack_junk pf) [0..<128]"

text \<open>
  \<^verbatim>\<open>hxfile_read_line\<close> (lines 167 to 217). The result of \<^verbatim>\<open>getc\<close> is stored in a plain
  \<^verbatim>\<open>char\<close> before it is compared with \<^verbatim>\<open>EOF\<close>. The function returns the line (its string
  value) and leaves the stream advanced.
\<close>

definition hxfile_read_line ::
  "platform \<Rightarrow> string option \<Rightarrow> fault + (string option \<times> string option)" where
  "hxfile_read_line pf stream =
     (case stream of
        None \<Rightarrow> Inr (None, None)
      | Some s \<Rightarrow>
          let (r, s1) = getc s;
              c = to_char pf r
          in if c = EOF then Inr (None, Some s1)
             else
               let s2 = ungetc c s1;
                   buf = stack_buf pf
               in case read_line_loop pf buf None 0 s2 of
                    Inl f \<Rightarrow> Inl f
                  | Inr (line, s3) \<Rightarrow> Inr (Some line, Some s3))"

section \<open>Files\<close>

text \<open>
  The file system as the library sees it through \<^verbatim>\<open>stdio\<close>: the content of each existing
  file, whether a path can be opened for reading and for writing, and the list of
  \<^verbatim>\<open>fopen\<close> calls made so far (path and mode string). Text and binary mode do not differ,
  as on a POSIX system. What stands behind a path need not be a regular file on a
  healthy disk, so three more fields say how the device answers:
  \<^item> \<open>tell_end w p n\<close> is what \<^verbatim>\<open>ftell\<close> returns after \<^verbatim>\<open>fseek(stream, 0, SEEK_END)\<close> on the
    file \<open>p\<close> of \<open>n\<close> bytes: \<open>n\<close> for a regular file, \<open>0\<close> for a file that reports no
    size, and a negative value for a stream that cannot seek (then \<^verbatim>\<open>fseek\<close> and \<^verbatim>\<open>ftell\<close>
    fail);
  \<^item> \<open>read_count w p k\<close> is the number of bytes that \<^verbatim>\<open>fread\<close> delivers when \<open>k\<close> bytes are
    requested and present: \<open>k\<close> unless the read falls short;
  \<^item> \<open>write_count w p k\<close> is the number of bytes that have reached the file when \<open>k\<close>
    bytes were written and the stream was closed: \<open>k\<close> unless the device discards or
    refuses them.
\<close>

record world =
  files :: "string \<rightharpoonup> string"
  may_read :: "string \<Rightarrow> bool"
  may_write :: "string \<Rightarrow> bool"
  opened :: "(string \<times> string) list"
  tell_end :: "string \<Rightarrow> nat \<Rightarrow> int"
  read_count :: "string \<Rightarrow> nat \<Rightarrow> nat"
  write_count :: "string \<Rightarrow> nat \<Rightarrow> nat"

datatype access = ReadAcc | WriteAcc | AppendAcc

datatype whence = SEEK_SET | SEEK_END

record fstream =
  spath :: string
  sacc :: access
  spos :: nat

text \<open>The six mode strings that the library passes; any other string fails to open.\<close>

definition parse_mode :: "string \<Rightarrow> access option" where
  "parse_mode m =
     (if m = ''r'' \<or> m = ''rb'' then Some ReadAcc
      else if m = ''w'' \<or> m = ''wb'' then Some WriteAcc
      else if m = ''a'' \<or> m = ''ab'' then Some AppendAcc
      else None)"

definition fopen :: "world \<Rightarrow> string \<Rightarrow> string \<Rightarrow> fstream option \<times> world" where
  "fopen w p m =
     (let w1 = w\<lparr>opened := opened w @ [(p, m)]\<rparr> in
      case parse_mode m of
        None \<Rightarrow> (None, w1)
      | Some ReadAcc \<Rightarrow>
          if files w p \<noteq> None \<and> may_read w p
          then (Some \<lparr>spath = p, sacc = ReadAcc, spos = 0\<rparr>, w1)
          else (None, w1)
      | Some WriteAcc \<Rightarrow>
          if may_write w p
          then (Some \<lparr>spath = p, sacc = WriteAcc, spos = 0\<rparr>,
                w1\<lparr>files := (files w)(p \<mapsto> [])\<rparr>)
          else (None, w1)
      | Some AppendAcc \<Rightarrow>
          if may_write w p
          then (Some \<lparr>spath = p, sacc = AppendAcc, spos = 0\<rparr>,
                w1\<lparr>files := (files w)(p \<mapsto> (case files w p of None \<Rightarrow> [] | Some c \<Rightarrow> c))\<rparr>)
          else (None, w1))"

definition content :: "world \<Rightarrow> fstream \<Rightarrow> string" where
  "content w st = (case files w (spath st) of None \<Rightarrow> [] | Some c \<Rightarrow> c)"

text \<open>The answer of the device for the end of the stream's file; negative: it cannot seek.\<close>

definition seek_end :: "world \<Rightarrow> fstream \<Rightarrow> int" where
  "seek_end w st = tell_end w (spath st) (length (content w st))"

text \<open>
  \<^verbatim>\<open>fseek\<close> fails on a stream that cannot seek and leaves the position where it was;
  its result is ignored by the library. \<^verbatim>\<open>ftell\<close> returns a \<^verbatim>\<open>long\<close>, \<open>-1\<close> when it fails.
\<close>

definition fseek :: "world \<Rightarrow> fstream \<Rightarrow> nat \<Rightarrow> whence \<Rightarrow> fstream" where
  "fseek w st off wh =
     (if seek_end w st < 0 then st
      else st\<lparr>spos := (case wh of SEEK_SET \<Rightarrow> off | SEEK_END \<Rightarrow> nat (seek_end w st) + off)\<rparr>)"

definition ftell :: "world \<Rightarrow> fstream \<Rightarrow> int" where
  "ftell w st = (if seek_end w st < 0 then - 1 else int (spos st))"

text \<open>
  The value of an integer after its conversion to \<^verbatim>\<open>size_t\<close>, and the sum of two
  \<^verbatim>\<open>size_t\<close> values: both wrap around. A failed \<^verbatim>\<open>ftell\<close> becomes the largest \<^verbatim>\<open>size_t\<close>.
\<close>

definition to_size :: "platform \<Rightarrow> int \<Rightarrow> nat" where
  "to_size pf v = nat (v mod 2 ^ size_bits pf)"

definition size_add :: "platform \<Rightarrow> nat \<Rightarrow> nat \<Rightarrow> nat" where
  "size_add pf a b = (a + b) mod 2 ^ size_bits pf"

text \<open>
  \<^verbatim>\<open>fread\<close> of \<open>n\<close> bytes: the bytes delivered and the stream advanced. It delivers
  fewer than \<open>n\<close> at the end of the file or when the device falls short.
\<close>

definition fread :: "world \<Rightarrow> fstream \<Rightarrow> nat \<Rightarrow> string \<times> fstream" where
  "fread w st n =
     (if sacc st = ReadAcc
      then (let present = take n (drop (spos st) (content w st));
                d = take (read_count w (spath st) (length present)) present
            in (d, st\<lparr>spos := spos st + length d\<rparr>))
      else ([], st))"

text \<open>
  \<^verbatim>\<open>fputs\<close> writes the bytes of \<open>text\<close> before its terminator. The library writes once
  to a stream that it has just opened and closes it, so in both writing modes the bytes
  go to the end of the content (which is empty after \<^verbatim>\<open>"w"\<close> has truncated it); of these
  bytes the file keeps as many as the device takes. A stream opened for reading takes
  no bytes. The results of \<^verbatim>\<open>fputs\<close> and \<^verbatim>\<open>fclose\<close> are ignored by the library, so a
  write that fell short is not seen by it.
\<close>

definition fputs :: "string \<Rightarrow> world \<Rightarrow> fstream \<Rightarrow> fault + world" where
  "fputs text w st =
     (case strlen text of
        None \<Rightarrow> Inl OutOfBounds
      | Some n \<Rightarrow>
          Inr (if sacc st = ReadAcc then w
               else w\<lparr>files := (files w)(spath st \<mapsto>
                      content w st @ take (write_count w (spath st) n) (cstr text))\<rparr>))"

definition fclose :: "world \<Rightarrow> fstream \<Rightarrow> world" where
  "fclose w st = w"

text \<open>\<^verbatim>\<open>malloc\<close>: \<^verbatim>\<open>NULL\<close>, or a fresh object of \<open>n\<close> bytes with unspecified content.\<close>

definition malloc :: "platform \<Rightarrow> nat \<Rightarrow> string option" where
  "malloc pf n = (if malloc_ok pf n then Some (map (heap_junk pf) [0..<n]) else None)"

section \<open>Whole-file read and write\<close>

text \<open>
  The static function \<^verbatim>\<open>read\<close> (lines 59 to 80). The results of \<^verbatim>\<open>fseek\<close> are ignored
  and the \<^verbatim>\<open>long\<close> that \<^verbatim>\<open>ftell\<close> returns is stored in a \<^verbatim>\<open>size_t\<close> without a check;
  \<^verbatim>\<open>size + 1\<close> wraps around. The result of \<^verbatim>\<open>malloc\<close> is passed to \<^verbatim>\<open>fread\<close> and indexed
  without a check. \<^verbatim>\<open>fread\<close> stores \<^verbatim>\<open>readc\<close> bytes in the object and line 76 writes
  the terminator at index \<^verbatim>\<open>readc\<close>: when the object has no more than \<^verbatim>\<open>readc\<close> bytes
  this is a write outside it. The buffer returned is the whole object.
\<close>

definition read ::
  "platform \<Rightarrow> world \<Rightarrow> string option \<Rightarrow> string option \<Rightarrow> fault + (string option \<times> world)" where
  "read pf w filepath options =
     (case (filepath, options) of
        (Some p, Some m) \<Rightarrow>
          (case fopen w p m of
             (None, w1) \<Rightarrow> Inr (None, w1)
           | (Some stream, w1) \<Rightarrow>
               let st1 = fseek w1 stream 0 SEEK_END;
                   size = to_size pf (ftell w1 st1);
                   st2 = fseek w1 st1 0 SEEK_SET
               in case malloc pf (size_add pf size 1) of
                    None \<Rightarrow> Inl NullDeref
                  | Some str \<Rightarrow>
                      let (data, st3) = fread w1 st2 size;
                          readc = length data
                      in if length str \<le> readc then Inl OutOfBounds
                         else
                           let str1 = data @ drop readc str;
                               str2 = str1[readc := NUL]
                           in Inr (Some str2, fclose w1 st3))
      | _ \<Rightarrow> Inr (None, w))"

definition hxfile_read ::
  "platform \<Rightarrow> world \<Rightarrow> string option \<Rightarrow> fault + (string option \<times> world)" where
  "hxfile_read pf w filepath = read pf w filepath (Some ''r'')"

definition hxfile_read_raw ::
  "platform \<Rightarrow> world \<Rightarrow> string option \<Rightarrow> fault + (string option \<times> world)" where
  "hxfile_read_raw pf w filepath = read pf w filepath (Some ''rb'')"

text \<open>
  The static function \<^verbatim>\<open>write\<close> (lines 95 to 106), here \<open>write_file\<close> since \<open>write\<close> is
  a keyword of Isar; the result of \<^verbatim>\<open>fputs\<close> is ignored.
\<close>

definition write_file ::
  "world \<Rightarrow> string option \<Rightarrow> string option \<Rightarrow> string option \<Rightarrow> fault + (bool \<times> world)" where
  "write_file w filepath text options =
     (case (filepath, text, options) of
        (Some p, Some t, Some m) \<Rightarrow>
          (case fopen w p m of
             (None, w1) \<Rightarrow> Inr (False, w1)
           | (Some stream, w1) \<Rightarrow>
               (case fputs t w1 stream of
                  Inl f \<Rightarrow> Inl f
                | Inr w2 \<Rightarrow> Inr (True, fclose w2 stream)))
      | _ \<Rightarrow> Inr (False, w))"

definition hxfile_write :: "world \<Rightarrow> string option \<Rightarrow> string option \<Rightarrow> fault + (bool \<times> world)" where
  "hxfile_write w filepath text = write_file w filepath text (Some ''w'')"

definition hxfile_write_raw :: "world \<Rightarrow> string option \<Rightarrow> string option \<Rightarrow> fault + (bool \<times> world)" where
  "hxfile_write_raw w filepath text = write_file w filepath text (Some ''wb'')"

definition hxfile_append :: "world \<Rightarrow> string option \<Rightarrow> string option \<Rightarrow> fault + (bool \<times> world)" where
  "hxfile_append w filepath text = write_file w filepath text (Some ''a'')"

definition hxfile_append_raw :: "world \<Rightarrow> string option \<Rightarrow> string option \<Rightarrow> fault + (bool \<times> world)" where
  "hxfile_append_raw w filepath data = write_file w filepath data (Some ''ab'')"

section \<open>\<^verbatim>\<open>hxfile_read_lines\<close>\<close>

text \<open>
  Pointers into the text buffer are offsets from its start. A read through a pointer
  outside the object is a fault.
\<close>

definition peek :: "string \<Rightarrow> int \<Rightarrow> fault + char" where
  "peek m i = (if 0 \<le> i \<and> i < int (length m) then Inr (m ! nat i) else Inl OutOfBounds)"

text \<open>
  The counting loop \<^verbatim>\<open>while (*pos) { if (*pos++ == '\n') ++linec; }\<close> (lines 143 to
  146): it returns the final \<^verbatim>\<open>pos\<close> and \<^verbatim>\<open>linec\<close>.
\<close>

function count_loop :: "string \<Rightarrow> nat \<Rightarrow> nat \<Rightarrow> fault + (nat \<times> nat)" where
  "count_loop text pos linec =
     (if length text \<le> pos then Inl OutOfBounds
      else if text ! pos = NUL then Inr (pos, linec)
      else count_loop text (pos + 1) (if text ! pos = NL then linec + 1 else linec))"
  by pat_completeness auto
termination
  by (relation "measure (\<lambda>(text, pos, linec). length text - pos)") auto

text \<open>
  \<^verbatim>\<open>strtok\<close> keeps the position where the next search starts in a static variable; the
  state is the buffer together with that position. It skips every leading delimiter,
  so a token is never empty, and overwrites the delimiter that ends the token.
\<close>

definition strtok ::
  "nat option \<Rightarrow> string \<Rightarrow> string \<times> nat \<Rightarrow> fault + (nat option \<times> (string \<times> nat))" where
  "strtok str delim ts =
     (let (text, save) = ts;
          s = (case str of Some p \<Rightarrow> p | None \<Rightarrow> save);
          b = s + length (takeWhile (\<lambda>c. c \<in> set delim \<and> c \<noteq> NUL) (drop s text))
      in if length text \<le> b then Inl OutOfBounds
         else if text ! b = NUL then Inr (None, (text, b))
         else
           let e = b + length (takeWhile (\<lambda>c. c \<notin> set delim \<and> c \<noteq> NUL) (drop b text))
           in if length text \<le> e then Inl OutOfBounds
              else if text ! e = NUL then Inr (Some b, (text, e))
              else Inr (Some b, (text[e := NUL], e + 1)))"

text \<open>The loop \<^verbatim>\<open>for (size_t i = 1; i < linec; ++i) out[i] = strtok(NULL, "\n");\<close>\<close>

function fill_loop ::
  "nat \<Rightarrow> nat \<Rightarrow> nat option list \<Rightarrow> string \<times> nat \<Rightarrow> fault + (nat option list \<times> (string \<times> nat))" where
  "fill_loop i linec out ts =
     (if i < linec
      then (case strtok None [NL] ts of
              Inl f \<Rightarrow> Inl f
            | Inr (t, ts') \<Rightarrow> fill_loop (i + 1) linec (out[i := t]) ts')
      else Inr (out, ts))"
  by pat_completeness auto
termination
  by (relation "measure (\<lambda>(i, linec, out, ts). linec - i)") auto

text \<open>
  The first half of the body of \<^verbatim>\<open>hxfile_read_lines\<close> after the read (lines 138 to
  148), on the buffer \<open>text\<close>: the number of lines. The condition on line 148 reads
  \<^verbatim>\<open>*(pos - 1)\<close> before it tests \<^verbatim>\<open>pos > text\<close>.
\<close>

definition count_lines :: "string \<Rightarrow> fault + nat" where
  "count_lines text =
     (case count_loop text 0 0 of
        Inl f \<Rightarrow> Inl f
      | Inr (pos, linec) \<Rightarrow>
          (case peek text (int pos - 1) of
             Inl f \<Rightarrow> Inl f
           | Inr c \<Rightarrow> Inr (if c \<noteq> NL \<and> 0 < pos then linec + 1 else linec)))"

text \<open>
  The second half (lines 150 to 164): the array \<^verbatim>\<open>out\<close> is allocated, not checked, and
  filled by \<^verbatim>\<open>strtok\<close>. The result is the array (each cell \<^verbatim>\<open>NULL\<close> or an offset into the
  buffer) and the buffer as \<^verbatim>\<open>strtok\<close> has left it. Every cell of \<^verbatim>\<open>out\<close> is written
  before the function returns, so the cells start as \<open>None\<close> here.
\<close>

definition fill_lines :: "platform \<Rightarrow> string \<Rightarrow> nat \<Rightarrow> fault + (nat option list \<times> string)" where
  "fill_lines pf text linec =
     (if \<not> malloc_ok pf ((linec + 1) * sizeof_ptr pf) then Inl NullDeref
      else
        let out = replicate (linec + 1) None in
        case strtok (Some 0) [NL] (text, 0) of
          Inl f \<Rightarrow> Inl f
        | Inr (t0, ts) \<Rightarrow>
            (case fill_loop 1 linec (out[0 := t0]) ts of
               Inl f \<Rightarrow> Inl f
             | Inr (out', (text', save)) \<Rightarrow> Inr (out'[linec := None], text')))"

definition split_text :: "platform \<Rightarrow> string \<Rightarrow> fault + (nat option list \<times> string)" where
  "split_text pf text =
     (case count_lines text of
        Inl f \<Rightarrow> Inl f
      | Inr linec \<Rightarrow> fill_lines pf text linec)"

definition hxfile_read_lines ::
  "platform \<Rightarrow> world \<Rightarrow> string option \<Rightarrow> fault + ((nat option list \<times> string) option \<times> world)" where
  "hxfile_read_lines pf w filepath =
     (case hxfile_read pf w filepath of
        Inl f \<Rightarrow> Inl f
      | Inr (None, w1) \<Rightarrow> Inr (None, w1)
      | Inr (Some text, w1) \<Rightarrow>
          (case split_text pf text of
             Inl f \<Rightarrow> Inl f
           | Inr r \<Rightarrow> Inr (Some r, w1)))"

text \<open>
  The sequence of lines as a caller reads it from the result: the strings that the
  cells of \<^verbatim>\<open>out\<close> point to, up to the first \<^verbatim>\<open>NULL\<close> cell.
\<close>

fun lines_of :: "nat option list \<Rightarrow> string \<Rightarrow> string list" where
  "lines_of [] text = []"
| "lines_of (None # ps) text = []"
| "lines_of (Some p # ps) text = cstr (drop p text) # lines_of ps text"

text \<open>Joining a sequence of lines with a newline between neighbours.\<close>

fun join_lines :: "string list \<Rightarrow> string" where
  "join_lines [] = []"
| "join_lines [l] = l"
| "join_lines (l # ls) = l @ NL # join_lines ls"

section \<open>Example platforms and file systems\<close>

text \<open>
  A platform with a 64-bit \<^verbatim>\<open>size_t\<close> and signed or unsigned plain \<^verbatim>\<open>char\<close>, on which
  every allocation succeeds or every allocation fails. A file system with the single
  file \<^verbatim>\<open>f\<close>, readable and writable: a regular file on a healthy disk in \<open>example_world\<close>;
  in \<open>example_device\<close> a file for which \<^verbatim>\<open>ftell\<close> reports \<open>e\<close> at the end whatever it
  holds (\<open>0\<close> as a file of \<^verbatim>\<open>/proc\<close> does, \<open>-1\<close> as a pipe does) and which keeps the bytes
  written to it or discards them (as \<^verbatim>\<open>/dev/null\<close> does).
\<close>

definition example_platform :: "bool \<Rightarrow> bool \<Rightarrow> platform" where
  "example_platform is_signed alloc =
     \<lparr>char_signed = is_signed, malloc_ok = (\<lambda>n. alloc), heap_junk = (\<lambda>i. CHR ''?''),
      stack_junk = (\<lambda>i. CHR ''?''), sizeof_ptr = 8, size_bits = 64\<rparr>"

definition example_world :: "string \<Rightarrow> world" where
  "example_world c =
     \<lparr>files = [''f'' \<mapsto> c], may_read = (\<lambda>p. True), may_write = (\<lambda>p. True), opened = [],
      tell_end = (\<lambda>p n. int n), read_count = (\<lambda>p k. k), write_count = (\<lambda>p k. k)\<rparr>"

definition example_device :: "string \<Rightarrow> int \<Rightarrow> bool \<Rightarrow> world" where
  "example_device c e keeps =
     \<lparr>files = [''f'' \<mapsto> c], may_read = (\<lambda>p. True), may_write = (\<lambda>p. True), opened = [],
      tell_end = (\<lambda>p n. e), read_count = (\<lambda>p k. k),
      write_count = (\<lambda>p k. if keeps then k else 0)\<rparr>"

section \<open>Writing a file and reading it back\<close>

text \<open>
  \<^verbatim>\<open>hxfile_write_raw(p, C)\<close> followed by \<^verbatim>\<open>hxfile_read_raw(p)\<close>, where the caller's buffer
  holds the bytes \<open>C\<close> and a terminator. The result is the buffer that is read back.
\<close>

definition write_then_read :: "platform \<Rightarrow> world \<Rightarrow> string \<Rightarrow> string \<Rightarrow> fault + string option" where
  "write_then_read pf w p C =
     (case hxfile_write_raw w (Some p) (Some (C @ [NUL])) of
        Inl f \<Rightarrow> Inl f
      | Inr (ok, w1) \<Rightarrow>
          (case hxfile_read_raw pf w1 (Some p) of
             Inl f \<Rightarrow> Inl f
           | Inr (r, w2) \<Rightarrow> Inr r))"

section \<open>Properties of the model\<close>

subsection \<open>One chunk of \<^verbatim>\<open>fgets\<close>\<close>

declare read_line_loop.simps [simp del]

lemma read_chars_le: "length (read_chars k s) \<le> k"
  by (induction k s rule: read_chars.induct) auto

lemma read_chars_Nil: "read_chars k s = [] \<longleftrightarrow> k = 0 \<or> s = []"
  by (induction k s rule: read_chars.induct) auto

lemma read_chars_eof [simp]: "read_chars k [] = []"
  by (cases k) auto

lemma read_chars_prefix: "read_chars k s @ drop (length (read_chars k s)) s = s"
  by (induction k s rule: read_chars.induct) auto


lemma read_chars_full: "NL \<notin> set l \<Longrightarrow> k \<le> length l \<Longrightarrow> read_chars k (l @ t) = take k l"
  by (induction k l rule: read_chars.induct) auto

lemma read_chars_line: "NL \<notin> set l \<Longrightarrow> length l < k \<Longrightarrow> read_chars k (l @ NL # t) = l @ [NL]"
  by (induction k l rule: read_chars.induct) auto

lemma cstr_append_NUL: "cstr (xs @ NUL # ys) = cstr xs"
  by (induction xs) (auto simp: cstr_def)

lemma cstr_no_NUL: "NUL \<notin> set xs \<Longrightarrow> cstr xs = xs"
  by (induction xs) (auto simp: cstr_def)



lemma chunk_buf_126:
  assumes "128 \<le> length buf" and "length chunk \<le> 127"
  shows "(chunk @ NUL # drop (Suc (length chunk)) (buf[126 := NUL])) ! 126 =
         (if length chunk = 127 then chunk ! 126 else NUL)"
proof (cases "length chunk = 127")
  case True
  then show ?thesis by (simp add: nth_append)
next
  case False
  with assms(2) have lt: "length chunk < 127" by simp
  show ?thesis
  proof (cases "length chunk = 126")
    case True
    then show ?thesis by (simp add: nth_append)
  next
    case False
    with lt obtain d where d: "126 - length chunk = Suc d" "Suc (length chunk) + d = 126"
      by (cases "126 - length chunk") auto
    have "(chunk @ NUL # drop (Suc (length chunk)) (buf[126 := NUL])) ! 126 =
          (NUL # drop (Suc (length chunk)) (buf[126 := NUL])) ! (126 - length chunk)"
      using lt by (simp add: nth_append)
    also have "\<dots> = drop (Suc (length chunk)) (buf[126 := NUL]) ! d"
      using d(1) by simp
    also have "\<dots> = (buf[126 := NUL]) ! (Suc (length chunk) + d)"
      using assms(1) d(2) by (intro nth_drop) simp
    also have "\<dots> = NUL"
      using assms(1) d(2) by simp
    finally show ?thesis using lt by simp
  qed
qed

lemma read_line_loop_nonempty:
  assumes "128 \<le> length buf" and "s \<noteq> []"
  shows "read_line_loop pf buf line osize s =
     (let chunk = read_chars 127 s;
          osize' = osize + (length (cstr chunk) + 1);
          line' = (case line of Some l \<Rightarrow> l | None \<Rightarrow> []) @ cstr chunk;
          buf2 = chunk @ NUL # drop (Suc (length chunk)) (buf[126 := NUL])
      in if \<not> malloc_ok pf osize' then Inl NullDeref
         else if length chunk = 127 \<and> chunk ! 126 \<noteq> NUL \<and> chunk ! 126 \<noteq> NL
         then read_line_loop pf buf2 (Some line') osize' (drop (length chunk) s)
         else Inr (line', drop (length chunk) s))"
proof -
  have ne: "read_chars 127 s \<noteq> []"
    using assms(2) by (simp add: read_chars_Nil)
  have le: "length (read_chars 127 s) \<le> 127"
    by (rule read_chars_le)
  show ?thesis
    using assms(1) ne chunk_buf_126 [OF assms(1) le]
    by (subst read_line_loop.simps)
      (simp add: fgets_def Let_def strlen_def cstr_append_NUL)
qed

lemma read_line_loop_empty:
  assumes "128 \<le> length buf"
  shows "read_line_loop pf buf line osize [] =
     (let b = cstr (take 126 buf);
          osize' = osize + (length b + 1)
      in if \<not> malloc_ok pf osize' then Inl NullDeref
         else Inr ((case line of Some l \<Rightarrow> l | None \<Rightarrow> []) @ b, []))"
proof -
  have "buf[126 := NUL] = take 126 buf @ NUL # drop 127 buf"
    using assms by (simp add: upd_conv_take_nth_drop)
  then have c: "cstr (buf[126 := NUL]) = cstr (take 126 buf)" and n: "NUL \<in> set (buf[126 := NUL])"
    by (simp_all add: cstr_append_NUL)
  show ?thesis
    using assms c n
    by (subst read_line_loop.simps) (simp add: fgets_def Let_def strlen_def)
qed

lemma read_line_loop_line:
  assumes ok: "\<forall>n. malloc_ok pf n"
  shows "NL \<notin> set l \<Longrightarrow> NUL \<notin> set l \<Longrightarrow> 128 \<le> length buf \<Longrightarrow>
         read_line_loop pf buf line osize (l @ NL # rest) =
         Inr ((case line of Some x \<Rightarrow> x | None \<Rightarrow> []) @ l @ [NL], rest)"
proof (induction "length l" arbitrary: l buf line osize rule: less_induct)
  case less
  let ?tmp = "case line of Some x \<Rightarrow> x | None \<Rightarrow> []"
  show ?case
  proof (cases "length l < 127")
    case True
    with less.prems have chunk: "read_chars 127 (l @ NL # rest) = l @ [NL]"
      by (simp add: read_chars_line)
    from less.prems have c: "cstr (l @ [NL]) = l @ [NL]"
      by (simp add: cstr_no_NUL)
    have last: "length l = 126 \<Longrightarrow> (l @ [NL]) ! 126 = NL"
      by (simp add: nth_append)
    show ?thesis
      using less.prems(3) ok last
      by (auto simp: read_line_loop_nonempty chunk c Let_def)
  next
    case False
    then have len: "127 \<le> length l" by simp
    with less.prems have chunk: "read_chars 127 (l @ NL # rest) = take 127 l"
      by (simp add: read_chars_full)
    from less.prems(2) have "NUL \<notin> set (take 127 l)"
      by (auto dest: in_set_takeD)
    then have c: "cstr (take 127 l) = take 127 l"
      by (rule cstr_no_NUL)
    from len have "take 127 l ! 126 = l ! 126" by simp
    moreover from len have "l ! 126 \<in> set l" by simp
    ultimately have cont: "take 127 l ! 126 \<noteq> NUL" "take 127 l ! 126 \<noteq> NL"
      using less.prems by auto
    let ?buf2 = "take 127 l @ NUL # drop (Suc (length (take 127 l))) (buf[126 := NUL])"
    from len less.prems(3) have lb: "128 \<le> length ?buf2" by simp
    have step: "read_line_loop pf buf line osize (l @ NL # rest) =
        read_line_loop pf ?buf2 (Some (?tmp @ take 127 l))
          (osize + (length (take 127 l) + 1)) (drop 127 l @ NL # rest)"
      using less.prems(3) ok cont len
      by (simp add: read_line_loop_nonempty chunk c Let_def)
    have "length (drop 127 l) < length l" using len by simp
    moreover have "NL \<notin> set (drop 127 l)" "NUL \<notin> set (drop 127 l)"
      using less.prems by (auto dest: in_set_dropD)
    ultimately have "read_line_loop pf ?buf2 (Some (?tmp @ take 127 l))
          (osize + (length (take 127 l) + 1)) (drop 127 l @ NL # rest) =
        Inr ((?tmp @ take 127 l) @ drop 127 l @ [NL], rest)"
      using less.hyps [of "drop 127 l" ?buf2 "Some (?tmp @ take 127 l)"] lb by simp
    with step show ?thesis by simp
  qed
qed


text \<open>
  A last line that no newline ends: the loop returns it whole unless its length is a
  multiple of 127. Then the stream ends where a chunk ends, one more \<^verbatim>\<open>fgets\<close> reads
  nothing, and the first 126 bytes of the last chunk are appended once more.
\<close>

lemma read_chars_no_newline: "NL \<notin> set l \<Longrightarrow> read_chars k l = take k l"
  by (induction k l rule: read_chars.induct) auto

lemma read_line_loop_eof:
  assumes ok: "\<forall>n. malloc_ok pf n"
  shows "l \<noteq> [] \<Longrightarrow> NL \<notin> set l \<Longrightarrow> NUL \<notin> set l \<Longrightarrow> 128 \<le> length buf \<Longrightarrow>
         read_line_loop pf buf line osize l =
         Inr ((case line of Some x \<Rightarrow> x | None \<Rightarrow> []) @ l @
              (if length l mod 127 = 0 then take 126 (drop (length l - 127) l) else []), [])"
proof (induction "length l" arbitrary: l buf line osize rule: less_induct)
  case less
  define tmp where "tmp = (case line of Some x \<Rightarrow> x | None \<Rightarrow> [])"
  have chunk: "read_chars 127 l = take 127 l"
    using less.prems(2) by (rule read_chars_no_newline)
  from less.prems(3) have "NUL \<notin> set (take 127 l)"
    by (auto dest: in_set_takeD)
  then have c: "cstr (take 127 l) = take 127 l"
    by (rule cstr_no_NUL)
  show ?case
  proof (cases "length l < 127")
    case True
    then have "length l mod 127 \<noteq> 0"
      using less.prems(1) by simp
    with True show ?thesis
      using less.prems(1,4) ok cstr_no_NUL [OF less.prems(3)]
      by (simp add: read_line_loop_nonempty chunk Let_def)
  next
    case False
    then have len: "127 \<le> length l" by simp
    then have "take 127 l ! 126 = l ! 126" by simp
    moreover from len have "l ! 126 \<in> set l" by simp
    ultimately have cont: "take 127 l ! 126 \<noteq> NUL" "take 127 l ! 126 \<noteq> NL"
      using less.prems by auto
    let ?buf2 = "take 127 l @ NUL # drop (Suc (length (take 127 l))) (buf[126 := NUL])"
    from len less.prems(4) have lb: "128 \<le> length ?buf2" by simp
    have step: "read_line_loop pf buf line osize l =
        read_line_loop pf ?buf2 (Some (tmp @ take 127 l))
          (osize + (length (take 127 l) + 1)) (drop 127 l)"
      using less.prems(1,4) ok cont len
      by (simp add: read_line_loop_nonempty chunk c Let_def tmp_def add.commute)
    show ?thesis
    proof (cases "length l = 127")
      case True
      then have "take 126 ?buf2 = take 126 l" by simp
      moreover from less.prems(3) have "NUL \<notin> set (take 126 l)"
        by (auto dest: in_set_takeD)
      ultimately have "cstr (take 126 ?buf2) = take 126 l"
        by (simp add: cstr_no_NUL)
      with True step lb ok show ?thesis
        by (simp add: read_line_loop_empty Let_def tmp_def)
    next
      case False
      with len have gt: "127 < length l" by simp
      then have ne: "drop 127 l \<noteq> []" by simp
      have shorter: "length (drop 127 l) < length l" using len by simp
      have nl: "NL \<notin> set (drop 127 l)" "NUL \<notin> set (drop 127 l)"
        using less.prems by (auto dest: in_set_dropD)
      have ih: "read_line_loop pf ?buf2 (Some (tmp @ take 127 l))
          (osize + (length (take 127 l) + 1)) (drop 127 l) =
        Inr ((tmp @ take 127 l) @ drop 127 l @
              (if length (drop 127 l) mod 127 = 0
               then take 126 (drop (length (drop 127 l) - 127) (drop 127 l)) else []), [])"
        using less.hyps [OF shorter ne nl lb, of "Some (tmp @ take 127 l)"] by simp
      have m: "length (drop 127 l) mod 127 = length l mod 127"
        using len by (simp add: le_mod_geq)
      have d: "drop (length (drop 127 l) - 127) (drop 127 l) = drop (length l - 127) l"
        if "length l mod 127 = 0"
      proof -
        from that gt have "254 \<le> length l"
          by presburger
        then show ?thesis by simp
      qed
      from step ih m d show ?thesis
        by (simp add: tmp_def)
    qed
  qed
qed

subsection \<open>The end-of-stream test of \<^verbatim>\<open>hxfile_read_line\<close>\<close>

lemma of_char_255: "of_char c = (255::int) \<longleftrightarrow> c = CHR 0xFF"
proof -
  have "of_char (CHR 0xFF) = (255::int)" by simp
  then have "of_char c = (255::int) \<longleftrightarrow> of_char c = (of_char (CHR 0xFF) :: int)" by simp
  then show ?thesis by (simp only: of_char_eq_iff)
qed

lemma of_char_range: "0 \<le> (of_char c :: int)" "(of_char c :: int) < 256"
proof -
  have eq: "(of_char c :: int) = int (of_char c)"
    by (simp only: of_nat_of_char)
  have "(of_char c :: nat) < 256"
    by (rule nat_of_char_less_256)
  then have "int (of_char c) < 256" by simp
  then show "(of_char c :: int) < 256" by (simp only: eq)
  have "0 \<le> int (of_char c)" by simp
  then show "0 \<le> (of_char c :: int)" by (simp only: eq)
qed

lemma to_char_EOF: "to_char pf (of_char c) = EOF \<longleftrightarrow> char_signed pf \<and> c = CHR 0xFF"
  using of_char_range [of c] of_char_255 [of c]
  by (auto simp: to_char_def Let_def)

lemma ungetc_to_char:
  assumes "to_char pf (of_char c) \<noteq> EOF"
  shows "ungetc (to_char pf (of_char c)) r = c # r"
proof -
  have "to_char pf (of_char c) mod 256 = (of_char c :: int) mod 256"
    by (simp add: to_char_def Let_def)
  then have "char_of (to_char pf (of_char c)) = char_of (of_char c :: int)"
    by (simp only: char_of_quasi_inj)
  with assms show ?thesis by (simp add: ungetc_def)
qed

lemma length_stack_buf: "length (stack_buf pf) = 128"
  by (simp add: stack_buf_def)

lemma hxfile_read_line_Cons:
  "hxfile_read_line pf (Some (c # r)) =
     (if char_signed pf \<and> c = CHR 0xFF then Inr (None, Some r)
      else case read_line_loop pf (stack_buf pf) None 0 (c # r) of
             Inl f \<Rightarrow> Inl f
           | Inr (line, s3) \<Rightarrow> Inr (Some line, Some s3))"
proof -
  have "hxfile_read_line pf (Some (c # r)) =
     (if to_char pf (of_char c) = EOF then Inr (None, Some r)
      else case read_line_loop pf (stack_buf pf) None 0 (c # r) of
             Inl f \<Rightarrow> Inl f
           | Inr (line, s3) \<Rightarrow> Inr (Some line, Some s3))"
    by (simp add: hxfile_read_line_def getc_def Let_def ungetc_to_char)
  then show ?thesis
    by (simp only: to_char_EOF)
qed

subsection \<open>Lines returned by \<^verbatim>\<open>hxfile_read_line\<close>\<close>

text \<open>
  A line of text (it holds no zero byte) that a newline ends, of any length: when every
  allocation succeeds and the first byte is not the one that a signed \<^verbatim>\<open>char\<close> takes
  for \<^verbatim>\<open>EOF\<close>, \<^verbatim>\<open>hxfile_read_line\<close> returns it with its newline and leaves the stream just
  after that newline.
\<close>

lemma hxfile_read_line_text_line:
  assumes "NL \<notin> set l" and "NUL \<notin> set l" and "\<forall>n. malloc_ok pf n"
    and "char_signed pf \<longrightarrow> hd (l @ [NL]) \<noteq> CHR 0xFF"
  shows "hxfile_read_line pf (Some (l @ NL # rest)) = Inr (Some (l @ [NL]), Some rest)"
proof -
  obtain c r where cr: "l @ NL # rest = c # r" and hd: "hd (l @ [NL]) = c"
    by (cases l) auto
  have "read_line_loop pf (stack_buf pf) None 0 (l @ NL # rest) = Inr (l @ [NL], rest)"
    using read_line_loop_line [OF assms(3) assms(1) assms(2), of "stack_buf pf" None 0 rest]
    by (simp add: length_stack_buf)
  then have loop: "read_line_loop pf (stack_buf pf) None 0 (c # r) = Inr (l @ [NL], rest)"
    by (simp only: cr)
  have "hxfile_read_line pf (Some (c # r)) = Inr (Some (l @ [NL]), Some rest)"
    using assms(4) hd loop by (simp add: hxfile_read_line_Cons)
  then show ?thesis by (simp only: cr)
qed


text \<open>
  Claim C7 says that a line that ends with a newline in the stream is returned whole,
  with its newline. The line \<^verbatim>\<open>"a\0b\n"\<close> is consumed up to its newline, but the string
  returned is \<^verbatim>\<open>"a"\<close>: \<^verbatim>\<open>strlen\<close> and \<^verbatim>\<open>strcat\<close> stop at the zero byte, and neither the
  rest of the line nor the newline is returned.
\<close>

theorem hxfile_read_line_cut_at_zero_byte:
  "hxfile_read_line (example_platform True True)
     (Some [CHR ''a'', NUL, CHR ''b'', NL, CHR ''c'']) =
   Inr (Some [CHR ''a''], Some [CHR ''c''])"
  by code_simp

text \<open>
  Claim C7, amended. When the line being read is text without a zero byte and ends
  with a newline in the stream, every allocation succeeds, and the first byte is not
  \<^verbatim>\<open>0xFF\<close> where plain \<^verbatim>\<open>char\<close> is signed, \<^verbatim>\<open>hxfile_read_line\<close> returns the whole line with
  its newline as the last character, and leaves the stream just after that newline.
  The line may be longer than any number of chunks.
\<close>

theorem hxfile_read_line_keeps_newline:
  assumes "NL \<notin> set l" and "NUL \<notin> set l" and "\<forall>n. malloc_ok pf n"
    and "char_signed pf \<longrightarrow> hd (l @ [NL]) \<noteq> CHR 0xFF"
  shows "hxfile_read_line pf (Some (l @ NL # rest)) = Inr (Some (l @ [NL]), Some rest)"
  using assms by (rule hxfile_read_line_text_line)

text \<open>Claim C7, amended, at the line \<^verbatim>\<open>ab\<close> followed by a newline and by \<^verbatim>\<open>c\<close>.\<close>

theorem hxfile_read_line_keeps_newline_witness:
  "NL \<notin> set ''ab'' \<and> NUL \<notin> set ''ab'' \<and>
   hxfile_read_line (example_platform True True) (Some (''ab'' @ NL # ''c'')) =
     Inr (Some (''ab'' @ [NL]), Some ''c'')"
  using hxfile_read_line_keeps_newline [of "''ab''" "example_platform True True" "''c''"]
  by (simp add: example_platform_def)




text \<open>
  The last line of a stream, when no newline ends it: \<^verbatim>\<open>hxfile_read_line\<close> returns it
  whole unless its length is a multiple of 127; then 126 bytes of its last chunk follow
  it once more.
\<close>

lemma hxfile_read_line_unterminated:
  assumes "l \<noteq> []" and "NL \<notin> set l" and "NUL \<notin> set l" and "\<forall>n. malloc_ok pf n"
    and "char_signed pf \<longrightarrow> hd l \<noteq> CHR 0xFF"
  shows "hxfile_read_line pf (Some l) =
     Inr (Some (l @ (if length l mod 127 = 0 then take 126 (drop (length l - 127) l) else [])),
          Some [])"
proof -
  from assms(1) obtain c r where cr: "l = c # r"
    by (cases l) auto
  have "read_line_loop pf (stack_buf pf) None 0 l =
      Inr (l @ (if length l mod 127 = 0 then take 126 (drop (length l - 127) l) else []), [])"
    using read_line_loop_eof [OF assms(4) assms(1) assms(2) assms(3), of "stack_buf pf" None 0]
    by (simp add: length_stack_buf)
  with assms(5) show ?thesis
    unfolding cr by (simp add: hxfile_read_line_Cons)
qed

text \<open>
  Claim C2 says that a line longer than the chunk is returned whole, as one string.
  A stream of 254 bytes \<^verbatim>\<open>a\<close> with no newline ends exactly where the second chunk ends,
  so the third \<^verbatim>\<open>fgets\<close> reads nothing and leaves the chunk buffer as it was: the line
  returned has 380 bytes, the 254 of the stream and 126 of the second chunk again.
\<close>

theorem hxfile_read_line_repeats_chunk_at_eof:
  "hxfile_read_line (example_platform True True) (Some (replicate 254 (CHR ''a''))) =
     Inr (Some (replicate 380 (CHR ''a'')), Some [])"
  by code_simp

text \<open>
  Claim C3 says that \<^verbatim>\<open>NULL\<close> is returned exactly at the end of the stream. Where plain
  \<^verbatim>\<open>char\<close> is signed, a stream that starts with the byte \<^verbatim>\<open>0xFF\<close> gives \<^verbatim>\<open>NULL\<close>, and the
  byte is consumed. Where plain \<^verbatim>\<open>char\<close> is unsigned, the empty stream gives the line
  \<^verbatim>\<open>"\xFF"\<close> instead of \<^verbatim>\<open>NULL\<close>.
\<close>

theorem hxfile_read_line_eof_test_in_char:
  "hxfile_read_line (example_platform True True) (Some [CHR 0xFF, CHR ''a'', NL]) =
     Inr (None, Some [CHR ''a'', NL]) \<and>
   hxfile_read_line (example_platform False True) (Some []) = Inr (Some [CHR 0xFF], Some [])"
  by code_simp

subsection \<open>Whole-file read and write\<close>

text \<open>
  Closed forms of \<^verbatim>\<open>read\<close>: on a path that does not open, and on a regular file, for
  which \<^verbatim>\<open>ftell\<close> reports the length and \<^verbatim>\<open>size + 1\<close> does not wrap. And of \<^verbatim>\<open>write\<close> in the
  truncating modes.
\<close>

lemma read_not_opened:
  assumes "m = ''r'' \<or> m = ''rb''" and "files w p = None \<or> \<not> may_read w p"
  shows "read pf w (Some p) (Some m) = Inr (None, w\<lparr>opened := opened w @ [(p, m)]\<rparr>)"
  using assms by (auto simp: read_def fopen_def parse_mode_def)

lemma read_regular:
  assumes "m = ''r'' \<or> m = ''rb''" and "files w p = Some c" and "may_read w p"
    and "tell_end w p (length c) = int (length c)"
    and "length c + 1 < 2 ^ size_bits pf"
  shows "read pf w (Some p) (Some m) =
     (if \<not> malloc_ok pf (length c + 1) then Inl NullDeref
      else
        let d = take (read_count w p (length c)) c
        in Inr (Some ((d @ drop (length d) (map (heap_junk pf) [0..<length c + 1]))[length d := NUL]),
                w\<lparr>opened := opened w @ [(p, m)]\<rparr>))"
proof -
  from assms(5) have "int (length c) mod 2 ^ size_bits pf = int (length c)"
    by (simp add: mod_pos_pos_trivial flip: of_nat_power)
  then have sz: "to_size pf (int (length c)) = length c"
    by (simp add: to_size_def)
  from assms(5) have add: "size_add pf (length c) 1 = length c + 1"
    by (simp add: size_add_def)
  have le: "length (take (read_count w p (length c)) c) < length c + 1"
    by simp
  show ?thesis
    using assms(1-4) sz add le
    by (auto simp: read_def fopen_def parse_mode_def fseek_def ftell_def seek_end_def
        content_def malloc_def fread_def fclose_def Let_def simp del: upt_Suc)
qed

lemma read_regular_whole:
  assumes "m = ''r'' \<or> m = ''rb''" and "files w p = Some c" and "may_read w p"
    and "tell_end w p (length c) = int (length c)"
    and "length c + 1 < 2 ^ size_bits pf"
    and "read_count w p (length c) = length c"
    and "malloc_ok pf (length c + 1)"
  shows "read pf w (Some p) (Some m) =
     Inr (Some (c @ [NUL]), w\<lparr>opened := opened w @ [(p, m)]\<rparr>)"
  using assms(6,7) by (simp add: read_regular [OF assms(1-5)])

lemma write_mode:
  assumes "m = ''w'' \<or> m = ''wb''"
  shows "write_file w (Some p) (Some t) (Some m) =
     (if \<not> may_write w p then Inr (False, w\<lparr>opened := opened w @ [(p, m)]\<rparr>)
      else if NUL \<in> set t
           then Inr (True, w\<lparr>opened := opened w @ [(p, m)],
                             files := (files w)(p \<mapsto> take (write_count w p (length (cstr t))) (cstr t))\<rparr>)
           else Inl OutOfBounds)"
  using assms
  by (auto simp: write_file_def fopen_def parse_mode_def fputs_def strlen_def content_def
      fclose_def Let_def)

text \<open>
  Claim C4 says that a failed allocation is surfaced as an absent result. With the
  file \<^verbatim>\<open>f\<close> holding \<^verbatim>\<open>"a"\<close> and an allocation that fails, \<^verbatim>\<open>hxfile_read\<close> does not return
  \<^verbatim>\<open>NULL\<close>: it writes through the null pointer.
\<close>

theorem hxfile_read_alloc_failure:
  "hxfile_read (example_platform True False) (example_world ''a'') (Some ''f'') = Inl NullDeref"
  by (simp add: hxfile_read_def read_regular example_platform_def example_world_def)

text \<open>
  Claim C4, amended. When the file does not exist or may not be read, \<^verbatim>\<open>hxfile_read\<close>
  and \<^verbatim>\<open>hxfile_read_raw\<close> return \<^verbatim>\<open>NULL\<close>. When it opens as a regular file (\<^verbatim>\<open>ftell\<close> reports
  its length, which fits \<^verbatim>\<open>size_t\<close>), the allocation succeeds and \<^verbatim>\<open>fread\<close> delivers every
  byte, they return the whole content of the file followed by the terminator. When it
  opens as a regular file and the allocation fails, they write through the null
  pointer. In each case one \<^verbatim>\<open>fopen\<close> call is made and no file is changed. Nothing is
  said here of a file whose size \<^verbatim>\<open>ftell\<close> does not report or whose read falls short.
\<close>

theorem hxfile_read_outcomes:
  "(files w p = None \<or> \<not> may_read w p \<longrightarrow>
      hxfile_read pf w (Some p) = Inr (None, w\<lparr>opened := opened w @ [(p, ''r'')]\<rparr>) \<and>
      hxfile_read_raw pf w (Some p) = Inr (None, w\<lparr>opened := opened w @ [(p, ''rb'')]\<rparr>)) \<and>
   (files w p = Some c \<and> may_read w p \<and> tell_end w p (length c) = int (length c) \<and>
    length c + 1 < 2 ^ size_bits pf \<longrightarrow>
      (malloc_ok pf (length c + 1) \<and> read_count w p (length c) = length c \<longrightarrow>
         hxfile_read pf w (Some p) =
           Inr (Some (c @ [NUL]), w\<lparr>opened := opened w @ [(p, ''r'')]\<rparr>) \<and>
         hxfile_read_raw pf w (Some p) =
           Inr (Some (c @ [NUL]), w\<lparr>opened := opened w @ [(p, ''rb'')]\<rparr>)) \<and>
      (\<not> malloc_ok pf (length c + 1) \<longrightarrow>
         hxfile_read pf w (Some p) = Inl NullDeref \<and>
         hxfile_read_raw pf w (Some p) = Inl NullDeref))"
proof (intro conjI impI)
  assume "files w p = None \<or> \<not> may_read w p"
  then show "hxfile_read pf w (Some p) = Inr (None, w\<lparr>opened := opened w @ [(p, ''r'')]\<rparr>)"
    and "hxfile_read_raw pf w (Some p) = Inr (None, w\<lparr>opened := opened w @ [(p, ''rb'')]\<rparr>)"
    by (simp_all add: hxfile_read_def hxfile_read_raw_def read_not_opened)
next
  assume reg: "files w p = Some c \<and> may_read w p \<and> tell_end w p (length c) = int (length c) \<and>
    length c + 1 < 2 ^ size_bits pf"
  {
    assume "malloc_ok pf (length c + 1) \<and> read_count w p (length c) = length c"
    with reg show "hxfile_read pf w (Some p) =
        Inr (Some (c @ [NUL]), w\<lparr>opened := opened w @ [(p, ''r'')]\<rparr>)"
      and "hxfile_read_raw pf w (Some p) =
        Inr (Some (c @ [NUL]), w\<lparr>opened := opened w @ [(p, ''rb'')]\<rparr>)"
      by (simp_all add: hxfile_read_def hxfile_read_raw_def read_regular_whole)
  }
  {
    assume "\<not> malloc_ok pf (length c + 1)"
    with reg show "hxfile_read pf w (Some p) = Inl NullDeref"
      and "hxfile_read_raw pf w (Some p) = Inl NullDeref"
      by (simp_all add: hxfile_read_def hxfile_read_raw_def read_regular)
  }
qed

text \<open>
  Claim C4, amended, on the file system that holds \<^verbatim>\<open>f\<close> with the content \<^verbatim>\<open>"abc"\<close>: at the
  path \<^verbatim>\<open>g\<close>, which does not exist, at \<^verbatim>\<open>f\<close>, and at \<^verbatim>\<open>f\<close> when the allocation fails.
\<close>

theorem hxfile_read_outcomes_witness:
  "hxfile_read (example_platform True True) (example_world ''abc'') (Some ''g'') =
     Inr (None, (example_world ''abc'')\<lparr>opened := [(''g'', ''r'')]\<rparr>) \<and>
   hxfile_read (example_platform True True) (example_world ''abc'') (Some ''f'') =
     Inr (Some (''abc'' @ [NUL]), (example_world ''abc'')\<lparr>opened := [(''f'', ''r'')]\<rparr>) \<and>
   hxfile_read (example_platform True False) (example_world ''abc'') (Some ''f'') =
     Inl NullDeref"
  using hxfile_read_outcomes [of "example_world ''abc''" "''g''" "example_platform True True" "[]"]
    hxfile_read_outcomes [of "example_world ''abc''" "''f''" "example_platform True True" "''abc''"]
    hxfile_read_outcomes [of "example_world ''abc''" "''f''" "example_platform True False" "''abc''"]
  by (simp add: example_world_def example_platform_def)

text \<open>
  What the hypotheses on \<^verbatim>\<open>ftell\<close> exclude. Its result is not checked (line 68): a file
  that holds bytes but reports the size 0 is returned as the empty string, and for a
  stream that cannot seek \<^verbatim>\<open>ftell\<close> returns \<open>-1\<close>, \<^verbatim>\<open>size\<close> is the largest \<^verbatim>\<open>size_t\<close>,
  \<^verbatim>\<open>size + 1\<close> is 0 and the bytes read are stored outside the object of \<^verbatim>\<open>malloc(0)\<close>.
\<close>

lemma hxfile_read_size_not_reported:
  "hxfile_read (example_platform True True) (example_device ''Linux'' 0 True) (Some ''f'') =
     Inr (Some [NUL], (example_device ''Linux'' 0 True)\<lparr>opened := [(''f'', ''r'')]\<rparr>)"
  by (simp add: hxfile_read_def read_def fopen_def parse_mode_def fseek_def ftell_def
      seek_end_def content_def malloc_def fread_def fclose_def to_size_def size_add_def
      example_device_def example_platform_def)

lemma hxfile_read_ftell_fails:
  "hxfile_read (example_platform True True) (example_device ''abc'' (- 1) True) (Some ''f'') =
     Inl OutOfBounds"
  by (simp add: hxfile_read_def read_def fopen_def parse_mode_def fseek_def ftell_def
      seek_end_def content_def malloc_def fread_def fclose_def to_size_def size_add_def
      example_device_def example_platform_def)

text \<open>
  Claim C8 says that every byte content written in binary mode is read back. The
  content \<^verbatim>\<open>"a\0b"\<close> is read back as \<^verbatim>\<open>"a"\<close>: \<^verbatim>\<open>fputs\<close> stops at the first zero byte.
\<close>

theorem write_raw_cuts_at_zero_byte:
  "write_then_read (example_platform True True) (example_world []) ''f''
     [CHR ''a'', NUL, CHR ''b''] = Inr (Some [CHR ''a'', NUL]) \<and>
   [CHR ''a'', NUL] \<noteq> [CHR ''a'', NUL, CHR ''b''] @ [NUL]"
  by (simp add: write_then_read_def hxfile_write_raw_def hxfile_read_raw_def write_mode
      read_regular_whole cstr_def example_world_def example_platform_def)

text \<open>
  Claim C8, amended. For every content \<open>C\<close> without a zero byte and every path that
  can be opened for writing and for reading and names a regular file on a healthy
  device (every byte written reaches the file, \<^verbatim>\<open>ftell\<close> reports its length, which fits
  \<^verbatim>\<open>size_t\<close>, and every byte is delivered to \<^verbatim>\<open>fread\<close>), when the allocation of the read
  succeeds, \<^verbatim>\<open>hxfile_write_raw\<close> followed by \<^verbatim>\<open>hxfile_read_raw\<close> returns a buffer holding
  \<open>C\<close> and its terminator.
\<close>

theorem write_raw_then_read_raw:
  assumes "may_write w p" and "may_read w p" and "NUL \<notin> set C"
    and "malloc_ok pf (length C + 1)"
    and "write_count w p (length C) = length C"
    and "tell_end w p (length C) = int (length C)"
    and "read_count w p (length C) = length C"
    and "length C + 1 < 2 ^ size_bits pf"
  shows "write_then_read pf w p C = Inr (Some (C @ [NUL]))"
  using assms
  by (simp add: write_then_read_def hxfile_write_raw_def hxfile_read_raw_def write_mode
      read_regular_whole cstr_append_NUL cstr_no_NUL)

text \<open>Claim C8, amended, at the content \<^verbatim>\<open>"abc"\<close> and the regular file \<^verbatim>\<open>f\<close>.\<close>

theorem write_raw_then_read_raw_witness:
  "write_then_read (example_platform True True) (example_world []) ''f'' ''abc'' =
     Inr (Some (''abc'' @ [NUL]))"
  using write_raw_then_read_raw [of "example_world []" "''f''" "''abc''" "example_platform True True"]
  by (simp add: example_world_def example_platform_def)

text \<open>
  What the hypotheses on the device exclude. The results of \<^verbatim>\<open>fputs\<close> and \<^verbatim>\<open>fclose\<close> are
  not checked (lines 102 to 105): on a device that discards what is written,
  \<^verbatim>\<open>hxfile_write_raw\<close> returns \<^verbatim>\<open>true\<close> and the content read back is the empty string.
\<close>

lemma write_raw_to_discarding_device:
  "hxfile_write_raw (example_device [] 0 False) (Some ''f'') (Some (''abc'' @ [NUL])) =
     Inr (True, (example_device [] 0 False)\<lparr>opened := [(''f'', ''wb'')]\<rparr>) \<and>
   write_then_read (example_platform True True) (example_device [] 0 False) ''f'' ''abc'' =
     Inr (Some [NUL])"
  by (simp add: write_then_read_def hxfile_write_raw_def hxfile_read_raw_def write_mode
      read_def fopen_def parse_mode_def fseek_def ftell_def
      seek_end_def content_def malloc_def fread_def fclose_def to_size_def size_add_def
      cstr_def example_device_def example_platform_def)

text \<open>
  Claim C10. With a null filepath, a null text or data pointer, or a null stream,
  every public operation returns its failure value (\<^verbatim>\<open>NULL\<close> or \<^verbatim>\<open>false\<close>) and leaves the
  file system as it was: no file is changed and no \<^verbatim>\<open>fopen\<close> call is made.
\<close>

theorem null_arguments_fail:
  "hxfile_read pf w None = Inr (None, w) \<and>
   hxfile_read_raw pf w None = Inr (None, w) \<and>
   hxfile_write w None text = Inr (False, w) \<and>
   hxfile_write w filepath None = Inr (False, w) \<and>
   hxfile_write_raw w None text = Inr (False, w) \<and>
   hxfile_write_raw w filepath None = Inr (False, w) \<and>
   hxfile_append w None text = Inr (False, w) \<and>
   hxfile_append w filepath None = Inr (False, w) \<and>
   hxfile_append_raw w None text = Inr (False, w) \<and>
   hxfile_append_raw w filepath None = Inr (False, w) \<and>
   hxfile_read_line pf None = Inr (None, None) \<and>
   hxfile_read_lines pf w None = Inr (None, w)"
  by (simp add: hxfile_read_def hxfile_read_raw_def read_def hxfile_write_def
      hxfile_write_raw_def hxfile_append_def hxfile_append_raw_def write_file_def
      hxfile_read_line_def hxfile_read_lines_def split: option.splits)

subsection \<open>Lines of a file\<close>

lemma hxfile_read_lines_split:
  assumes "files w p = Some c" and "may_read w p"
    and "tell_end w p (length c) = int (length c)"
    and "length c + 1 < 2 ^ size_bits pf"
    and "read_count w p (length c) = length c"
    and "malloc_ok pf (length c + 1)"
  shows "hxfile_read_lines pf w (Some p) =
     (case split_text pf (c @ [NUL]) of
        Inl f \<Rightarrow> Inl f
      | Inr r \<Rightarrow> Inr (Some r, w\<lparr>opened := opened w @ [(p, ''r'')]\<rparr>))"
  using assms by (simp add: hxfile_read_lines_def hxfile_read_def read_regular_whole)

text \<open>
  Claim C5 says that the file \<^verbatim>\<open>"a\n\nb"\<close> gives the three lines \<^verbatim>\<open>"a"\<close>, \<^verbatim>\<open>""\<close>, \<^verbatim>\<open>"b"\<close>.
  The counting loop finds three lines, but \<^verbatim>\<open>strtok\<close> skips the second newline with the
  first: the array returned is \<^verbatim>\<open>"a"\<close>, \<^verbatim>\<open>"b"\<close>, \<^verbatim>\<open>NULL\<close>, \<^verbatim>\<open>NULL\<close>, two lines to its reader.
\<close>

theorem hxfile_read_lines_skips_empty_line:
  "hxfile_read_lines (example_platform True True) (example_world [CHR ''a'', NL, NL, CHR ''b''])
     (Some ''f'') =
   Inr (Some ([Some 0, Some 3, None, None], [CHR ''a'', NUL, NL, CHR ''b'', NUL]),
        (example_world [CHR ''a'', NL, NL, CHR ''b''])\<lparr>opened := [(''f'', ''r'')]\<rparr>) \<and>
   lines_of [Some 0, Some 3, None, None] [CHR ''a'', NUL, NL, CHR ''b'', NUL] = [''a'', ''b'']"
proof -
  have "split_text (example_platform True True) ([CHR ''a'', NL, NL, CHR ''b''] @ [NUL]) =
      Inr ([Some 0, Some 3, None, None], [CHR ''a'', NUL, NL, CHR ''b'', NUL])"
    by code_simp
  moreover
  have "lines_of [Some 0, Some 3, None, None] [CHR ''a'', NUL, NL, CHR ''b'', NUL] = [''a'', ''b'']"
    by code_simp
  ultimately show ?thesis
    by (simp add: hxfile_read_lines_split example_world_def example_platform_def)
qed

text \<open>
  Claim C1 says that for a buffer \<open>B\<close> that is not empty and does not end in a newline
  the last line is the final segment of \<open>B\<close> and joining the lines with newlines gives
  \<open>B\<close> back. For \<open>B\<close> = \<^verbatim>\<open>"\nxy\n\nz"\<close> the lines are \<^verbatim>\<open>"xy"\<close> and \<^verbatim>\<open>"z"\<close>: the last one is the
  final segment, but joined they give \<^verbatim>\<open>"xy\nz"\<close>, not \<open>B\<close>.
\<close>

theorem hxfile_read_lines_join_loses_newlines:
  "hxfile_read_lines (example_platform True True)
     (example_world [NL, CHR ''x'', CHR ''y'', NL, NL, CHR ''z'']) (Some ''f'') =
   Inr (Some ([Some 1, Some 5, None, None, None],
              [NL, CHR ''x'', CHR ''y'', NUL, NL, CHR ''z'', NUL]),
        (example_world [NL, CHR ''x'', CHR ''y'', NL, NL, CHR ''z''])\<lparr>opened := [(''f'', ''r'')]\<rparr>) \<and>
   lines_of [Some 1, Some 5, None, None, None]
     [NL, CHR ''x'', CHR ''y'', NUL, NL, CHR ''z'', NUL] = [''xy'', ''z''] \<and>
   join_lines [''xy'', ''z''] = [CHR ''x'', CHR ''y'', NL, CHR ''z''] \<and>
   join_lines [''xy'', ''z''] \<noteq> [NL, CHR ''x'', CHR ''y'', NL, NL, CHR ''z'']"
proof -
  have "split_text (example_platform True True)
      ([NL, CHR ''x'', CHR ''y'', NL, NL, CHR ''z''] @ [NUL]) =
      Inr ([Some 1, Some 5, None, None, None],
           [NL, CHR ''x'', CHR ''y'', NUL, NL, CHR ''z'', NUL])"
    by code_simp
  moreover
  have "lines_of [Some 1, Some 5, None, None, None]
      [NL, CHR ''x'', CHR ''y'', NUL, NL, CHR ''z'', NUL] = [''xy'', ''z'']"
    by code_simp
  ultimately show ?thesis
    by (simp add: hxfile_read_lines_split example_world_def example_platform_def)
qed

text \<open>
  Claim C9 says that an empty buffer gives an empty sequence and that every character
  access stays inside the buffer. For the empty file the buffer is the terminator
  alone; the counting loop stops at once with \<^verbatim>\<open>pos\<close> at the start, and line 148 then
  reads \<^verbatim>\<open>*(pos - 1)\<close>, the byte before the buffer, before it tests \<^verbatim>\<open>pos > text\<close>.
  Whatever that byte is, \<^verbatim>\<open>pos > text\<close> is false and \<^verbatim>\<open>linec\<close> stays 0; from there the
  rest of the function gives the array that holds \<^verbatim>\<open>NULL\<close> alone, the empty sequence.
\<close>

theorem hxfile_read_lines_empty_file_reads_before_buffer:
  "count_loop [NUL] 0 0 = Inr (0, 0) \<and>
   peek [NUL] (int 0 - 1) = Inl OutOfBounds \<and>
   hxfile_read_lines (example_platform True True) (example_world []) (Some ''f'') =
     Inl OutOfBounds \<and>
   fill_lines (example_platform True True) [NUL] 0 = Inr ([None], [NUL]) \<and>
   lines_of [None] [NUL] = []"
proof -
  have "split_text (example_platform True True) ([] @ [NUL]) = Inl OutOfBounds"
    by code_simp
  moreover have "count_loop [NUL] 0 0 = Inr (0, 0)"
    by code_simp
  moreover have "peek [NUL] (int 0 - 1) = Inl OutOfBounds"
    by code_simp
  moreover have "fill_lines (example_platform True True) [NUL] 0 = Inr ([None], [NUL])"
    by code_simp
  ultimately show ?thesis
    by (simp add: hxfile_read_lines_split example_world_def example_platform_def)
qed

end
